theory Spec2Isabelle
  imports Main "HOL-Library.Sublist"
begin

section \<open>The rate limiter behind \<open>env.IP_RATE_LIMITER\<close>\<close>

text \<open>
  The worker (\<open>src/unnamed/part_001\<close>, the \<open>fetch\<close> handler) asks a rate-limit binding
  of the platform for a decision per client IP:
  \<^verbatim>\<open>const { success } = await env.IP_RATE_LIMITER.limit({ key: ip });\<close>
  The binding has no source in the repository. Its state and policy are taken from the
  specification (sections 3 and 4.1); its result is the \<open>{ success }\<close> object that the
  handler destructures.

  Time is a natural number of milliseconds since the epoch, the resolution of the
  JavaScript clock; the window length \<open>WINDOW\<close> is given in seconds.
\<close>

type_synonym RateLimitKey = string

record WindowState =
  count :: nat
  windowStart :: nat

type_synonym WindowStore = "RateLimitKey \<rightharpoonup> WindowState"

definition LIMIT :: nat where
  "LIMIT = 60"

definition WINDOW :: nat where
  "WINDOW = 60"

definition WINDOW_MS :: nat where
  "WINDOW_MS = WINDOW * 1000"

text \<open>
  Modelled from the spec: the start of the fixed window that holds \<open>now\<close>,
  ``aligned to \<open>now - (now mod WINDOW)\<close>''.
\<close>

definition currentWindowStart :: "nat \<Rightarrow> nat" where
  "currentWindowStart now = now - now mod WINDOW_MS"

text \<open>
  Modelled from the spec: \<open>CheckAndRecord(key, now)\<close>, the decision function of the rate
  limiter, which is the platform binding and is missing from the sources. ``If no state
  exists for key, or the stored windowStart is older than one WINDOW before now, reset count
  to 0 and set windowStart to the current interval start. Increment count by 1 for this call
  [...]. If resulting count <= LIMIT, return allowed=true. Otherwise return allowed=false.''
  A call at \<open>windowStart + WINDOW\<close> already belongs to the new window; a stored window
  that starts after \<open>now\<close> (a clock that went back) is kept and counted on. The first
  component of the result is \<open>allowed\<close>, the \<open>success\<close> that the handler reads; the
  second is the store after the call.
\<close>

definition CheckAndRecord ::
  "WindowStore \<Rightarrow> RateLimitKey \<Rightarrow> nat \<Rightarrow> bool \<times> WindowStore" where
  "CheckAndRecord store k now =
     (let fresh = \<lparr>count = 0, windowStart = currentWindowStart now\<rparr>;
          ws = (case store k of
                  None \<Rightarrow> fresh
                | Some w \<Rightarrow> if windowStart w + WINDOW_MS \<le> now then fresh else w);
          ws' = ws\<lparr>count := count ws + 1\<rparr>
      in (count ws' \<le> LIMIT, store(k \<mapsto> ws')))"

text \<open>The decisions of successive calls for one key, at the given times.\<close>

fun callsFor :: "WindowStore \<Rightarrow> RateLimitKey \<Rightarrow> nat list \<Rightarrow> bool list" where
  "callsFor store k [] = []"
| "callsFor store k (t # ts) =
     (case CheckAndRecord store k t of (a, store') \<Rightarrow> a # callsFor store' k ts)"

text \<open>
  Successive calls for arbitrary keys: each call is a key and a time, each result the key
  and its decision.
\<close>

fun runCalls ::
  "WindowStore \<Rightarrow> (RateLimitKey \<times> nat) list \<Rightarrow> (RateLimitKey \<times> bool) list \<times> WindowStore" where
  "runCalls store [] = ([], store)"
| "runCalls store ((k, t) # cs) =
     (case CheckAndRecord store k t of
        (a, store') \<Rightarrow> (case runCalls store' cs of (rs, store'') \<Rightarrow> ((k, a) # rs, store'')))"

definition decisionsFor :: "RateLimitKey \<Rightarrow> (RateLimitKey \<times> bool) list \<Rightarrow> bool list" where
  "decisionsFor k rs = map snd (filter (\<lambda>r. fst r = k) rs)"

text \<open>
  The key has no window that is still running at the window start \<open>s\<close>: it was never
  seen, or its stored window ended at or before \<open>s\<close>.
\<close>

definition noLiveWindow :: "WindowStore \<Rightarrow> RateLimitKey \<Rightarrow> nat \<Rightarrow> bool" where
  "noLiveWindow store k s =
     (case store k of None \<Rightarrow> True | Some w \<Rightarrow> windowStart w + WINDOW_MS \<le> s)"

text \<open>
  Modelled from the spec: the binding object \<open>env.IP_RATE_LIMITER\<close> and its method
  \<open>limit({ key })\<close>, which belong to the platform and are missing from the sources. The
  object holds the window store, and a log of the keys it was invoked with, oldest first;
  the log is the model's record of the binding having been called. \<open>limit\<close> is one
  \<open>CheckAndRecord\<close> at the time of the call, and its \<open>success\<close> is the decision.
\<close>

record RateLimit =
  windows :: WindowStore
  invocations :: "RateLimitKey list"

definition limit :: "RateLimit \<Rightarrow> RateLimitKey \<Rightarrow> nat \<Rightarrow> bool \<times> RateLimit" where
  "limit rl key now =
     (case CheckAndRecord (windows rl) key now of
        (success, store') \<Rightarrow>
          (success, rl\<lparr>windows := store', invocations := invocations rl @ [key]\<rparr>))"

record Env =
  IP_RATE_LIMITER :: RateLimit

text \<open>
  The retry hint as the specification words it (section 8): the time left until
  \<open>windowStart + WINDOW\<close>, rounded up to whole seconds. It is compared below with the value
  the handler sends.
\<close>

definition spec_retryAfterSeconds :: "nat \<Rightarrow> nat \<Rightarrow> nat" where
  "spec_retryAfterSeconds ws t = (ws + WINDOW_MS - t + 999) div 1000"

section \<open>Numbers and dates as text\<close>

definition digit :: "nat \<Rightarrow> char" where
  "digit n = ''0123456789'' ! (n mod 10)"

definition isDigit :: "char \<Rightarrow> bool" where
  "isDigit c = (c \<in> set ''0123456789'')"

text \<open>\<open>Number.prototype.toString\<close> on a non-negative integer: decimal, no padding.\<close>

fun toString :: "nat \<Rightarrow> string" where
  "toString n = (if n < 10 then [digit n] else toString (n div 10) @ [digit n])"

text \<open>Decimal of fixed width, zero-padded (the low \<open>w\<close> digits).\<close>

primrec padStart :: "nat \<Rightarrow> nat \<Rightarrow> string" where
  "padStart 0 n = []"
| "padStart (Suc w) n = padStart w (n div 10) @ [digit n]"

text \<open>
  Year, month and day of a day number counted from 1970-01-01 in the proleptic Gregorian
  calendar, through 400-year eras that start on 1 March.
\<close>

definition civilFromDays :: "nat \<Rightarrow> nat \<times> nat \<times> nat" where
  "civilFromDays days =
     (let z = days + 719468;
          era = z div 146097;
          doe = z mod 146097;
          yoe = (doe - doe div 1460 + doe div 36524 - doe div 146096) div 365;
          y = yoe + era * 400;
          doy = doe - (365 * yoe + yoe div 4 - yoe div 100);
          mp = (5 * doy + 2) div 153;
          d = doy - (153 * mp + 2) div 5 + 1;
          m = (if mp < 10 then mp + 3 else mp - 9)
      in (if m \<le> 2 then y + 1 else y, m, d))"

text \<open>
  \<open>new Date().toISOString()\<close> for a clock reading of \<open>ms\<close> milliseconds since the epoch:
  \<open>YYYY-MM-DDTHH:mm:ss.sssZ\<close>, with the expanded year \<open>+YYYYYY\<close> past the year 9999.
\<close>

definition toISOString :: "nat \<Rightarrow> string" where
  "toISOString ms =
     (let r = ms mod 86400000 in
      case civilFromDays (ms div 86400000) of
        (y, m, d) \<Rightarrow>
          (if y \<le> 9999 then padStart 4 y else ''+'' @ padStart 6 y)
          @ ''-'' @ padStart 2 m @ ''-'' @ padStart 2 d
          @ ''T'' @ padStart 2 (r div 3600000)
          @ '':'' @ padStart 2 (r div 60000 mod 60)
          @ '':'' @ padStart 2 (r div 1000 mod 60)
          @ ''.'' @ padStart 3 (r mod 1000) @ ''Z'')"

text \<open>
  A string fits a template when it has the template's length, a digit wherever the
  template has \<open>d\<close>, and the template's own character elsewhere.
\<close>

definition fitsTemplate :: "string \<Rightarrow> string \<Rightarrow> bool" where
  "fitsTemplate tpl s =
     list_all2 (\<lambda>p c. if p = CHR ''d'' then isDigit c else c = p) tpl s"

text \<open>An ISO-8601 date and time in UTC (suffix \<open>Z\<close>), in the two shapes above.\<close>

definition isIso8601Utc :: "string \<Rightarrow> bool" where
  "isIso8601Utc s =
     (fitsTemplate ''dddd-dd-ddTdd:dd:dd.dddZ'' s \<or> fitsTemplate ''+dddddd-dd-ddTdd:dd:dd.dddZ'' s)"

section \<open>Requests and responses\<close>

text \<open>
  A request as the handler observes it. \<open>pathname\<close> is \<open>new URL(request.url).pathname\<close>.
  The extractors of \<open>./http/getHeaders\<close> (\<open>getClientIp\<close>, \<open>getCountry\<close>, \<open>getCity\<close>,
  \<open>getRegion\<close>, \<open>getAllHeaders\<close>) are not in the sources: what each returns on the request
  is a field of the request, so that \<open>getClientIp request\<close> reads as in the handler. A
  JavaScript \<open>string | null\<close> is a \<open>string option\<close>.
\<close>

record Request =
  "method" :: string
  pathname :: string
  getClientIp :: "string option"
  getCountry :: "string option"
  getCity :: "string option"
  getRegion :: "string option"
  getAllHeaders :: "(string \<times> string) list"
  cf :: "(string \<times> string) list option"

text \<open>The response payloads of \<open>src/unnamed/part_000\<close>, before JSON encoding.\<close>

record ErrorResponse =
  error :: string
  timestamp :: string

text \<open>
  Of the fields of \<open>IpResponse\<close> the model keeps those that the handler's call
  \<open>createIpSuccessResponse(ip, country, city, region)\<close> supplies, and the time stamp.
\<close>

record IpResponse =
  ip :: "string option"
  country :: "string option"
  city :: "string option"
  region :: "string option"
  ipTimestamp :: string

record DebugResponse =
  debugHeaders :: "(string \<times> string) list"
  debugCf :: "(string \<times> string) list option"
  debugTimestamp :: string

datatype body =
    NoBody
  | ErrorBody ErrorResponse
  | IpBody IpResponse
  | DebugBody DebugResponse

record Response =
  status :: nat
  headers :: "(string \<times> string) list"
  body :: body

definition getHeader :: "Response \<Rightarrow> string \<Rightarrow> string option" where
  "getHeader r name = map_of (headers r) name"

text \<open>
  Modelled from the spec: the response builders of \<open>./http/createResponse\<close>, which are
  not in the sources. Status codes and error messages are those of the README
  (\<open>src/README.md\<close>, ``API Response''); the CORS header is the one section 6 of the
  specification and the test suite require on allowed and denied responses alike; the
  content type is the one the test suite expects. Each builder takes the clock reading
  \<open>now\<close> that \<open>new Date()\<close> would give it.
\<close>

definition corsHeaders :: "(string \<times> string) list" where
  "corsHeaders = [(''Access-Control-Allow-Origin'', ''*'')]"

definition jsonHeaders :: "(string \<times> string) list" where
  "jsonHeaders = corsHeaders @ [(''Content-Type'', ''application/json'')]"

definition rateLimitMessage :: string where
  "rateLimitMessage = ''Rate limit exceeded. Maximum 60 requests per minute allowed.''"

text \<open>
  Modelled from the spec: ``an error response with HTTP status 429, a JSON body [...] and
  an HTTP header \<open>Retry-After: <retryAfterSeconds>\<close>''. The handler's only call is
  \<open>createRateLimitResponse(60)\<close>, for which the README shows the message below and
  \<open>Retry-After: 60\<close>.
\<close>

definition createRateLimitResponse :: "nat \<Rightarrow> nat \<Rightarrow> Response" where
  "createRateLimitResponse retryAfter now =
     \<lparr>status = 429,
      headers = jsonHeaders @ [(''Retry-After'', toString retryAfter)],
      body = ErrorBody \<lparr>error = rateLimitMessage, timestamp = toISOString now\<rparr>\<rparr>"

text \<open>Modelled from the spec: the success response (README, ``200 OK'').\<close>

definition createIpSuccessResponse ::
  "string option \<Rightarrow> string option \<Rightarrow> string option \<Rightarrow> string option \<Rightarrow> nat \<Rightarrow> Response" where
  "createIpSuccessResponse i co ci re now =
     \<lparr>status = 200,
      headers = jsonHeaders,
      body = IpBody \<lparr>ip = i, country = co, city = ci, region = re,
                     ipTimestamp = toISOString now\<rparr>\<rparr>"

text \<open>Modelled from the spec: the 405 response (README, ``405 Method Not Allowed'').\<close>

definition createMethodNotAllowedResponse :: "nat \<Rightarrow> Response" where
  "createMethodNotAllowedResponse now =
     \<lparr>status = 405,
      headers = jsonHeaders,
      body = ErrorBody \<lparr>error = ''Method not allowed. Only GET requests are supported.'',
                        timestamp = toISOString now\<rparr>\<rparr>"

text \<open>Modelled from the spec: the 404 response (README, ``404 Not Found'').\<close>

definition createNotFoundResponse :: "nat \<Rightarrow> Response" where
  "createNotFoundResponse now =
     \<lparr>status = 404,
      headers = jsonHeaders,
      body = ErrorBody \<lparr>error = ''Not found. Only root path (/) is available.'',
                        timestamp = toISOString now\<rparr>\<rparr>"

text \<open>
  Modelled from the spec: the answer to a CORS preflight. Only the CORS header is
  documented; the status of an empty answer is taken to be 204, and nothing below depends
  on it.
\<close>

definition handleOptions :: Response where
  "handleOptions = \<lparr>status = 204, headers = corsHeaders, body = NoBody\<rparr>"

text \<open>
  Modelled from the spec: the \<open>/debug\<close> response, whose payload is the \<open>DebugResponse\<close>
  of \<open>src/unnamed/part_000\<close>.
\<close>

definition createDebugResponse ::
  "(string \<times> string) list \<Rightarrow> (string \<times> string) list option \<Rightarrow> nat \<Rightarrow> Response" where
  "createDebugResponse allHeaders c now =
     \<lparr>status = 200,
      headers = jsonHeaders,
      body = DebugBody \<lparr>debugHeaders = allHeaders, debugCf = c,
                        debugTimestamp = toISOString now\<rparr>\<rparr>"

section \<open>The handler\<close>

text \<open>
  \<open>fetch(request, env)\<close> of \<open>src/unnamed/part_001\<close>, run at the clock reading \<open>now\<close>.
  It returns the response and the environment after the call. The test \<open>if (ip)\<close> is
  JavaScript truthiness: \<open>null\<close> and the empty string both fail it.
\<close>

definition fetch :: "nat \<Rightarrow> Request \<Rightarrow> Env \<Rightarrow> Response \<times> Env" where
  "fetch now request env =
     (if method request = ''OPTIONS'' then (handleOptions, env)
      else if method request \<noteq> ''GET'' then (createMethodNotAllowedResponse now, env)
      else if pathname request = ''/debug'' then
        (createDebugResponse (getAllHeaders request) (cf request) now, env)
      else if pathname request \<noteq> ''/'' then (createNotFoundResponse now, env)
      else
        let ip = getClientIp request;
            country = getCountry request;
            city = getCity request;
            region = getRegion request
        in case ip of
             None \<Rightarrow> (createIpSuccessResponse ip country city region now, env)
           | Some key \<Rightarrow>
               if key = [] then (createIpSuccessResponse ip country city region now, env)
               else
                 (case limit (IP_RATE_LIMITER env) key now of
                    (success, rl') \<Rightarrow>
                      if \<not> success
                      then (createRateLimitResponse 60 now, env\<lparr>IP_RATE_LIMITER := rl'\<rparr>)
                      else (createIpSuccessResponse ip country city region now,
                            env\<lparr>IP_RATE_LIMITER := rl'\<rparr>)))"

text \<open>Requests served one after the other, each at its own arrival time.\<close>

fun serve :: "Env \<Rightarrow> (nat \<times> Request) list \<Rightarrow> Response list \<times> Env" where
  "serve env [] = ([], env)"
| "serve env ((now, request) # rs) =
     (case fetch now request env of
        (resp, env') \<Rightarrow> (case serve env' rs of (resps, env'') \<Rightarrow> (resp # resps, env'')))"

text \<open>
  Concrete instances: a \<open>GET\<close> request for the root path on which \<open>getClientIp\<close> gives
  \<open>i\<close>, and an environment whose binding holds the given windows and has not been
  invoked yet.
\<close>

definition rootRequest :: "string option \<Rightarrow> Request" where
  "rootRequest i =
     \<lparr>method = ''GET'', pathname = ''/'', getClientIp = i, getCountry = None,
      getCity = None, getRegion = None, getAllHeaders = [], cf = None\<rparr>"

definition envWith :: "WindowStore \<Rightarrow> Env" where
  "envWith store = \<lparr>IP_RATE_LIMITER = \<lparr>windows = store, invocations = []\<rparr>\<rparr>"

declare toString.simps [simp del]

section \<open>Facts about the limiter\<close>

lemma WINDOW_MS_value: "WINDOW_MS = 60000"
  by (simp add: WINDOW_MS_def WINDOW_def)

lemma currentWindowStart_bounds:
  assumes "currentWindowStart t = s"
  shows "s \<le> t" and "t < s + WINDOW_MS"
proof -
  have m: "t mod WINDOW_MS < WINDOW_MS" by (simp add: WINDOW_MS_value)
  have le: "t mod WINDOW_MS \<le> t" by simp
  from assms have s: "s = t - t mod WINDOW_MS" by (simp add: currentWindowStart_def)
  show "s \<le> t" using s by simp
  show "t < s + WINDOW_MS" using s m le by linarith
qed

lemma CheckAndRecord_running:
  assumes "store k = Some w" and "\<not> windowStart w + WINDOW_MS \<le> t"
  shows "CheckAndRecord store k t =
           (count w + 1 \<le> LIMIT, store(k \<mapsto> w\<lparr>count := count w + 1\<rparr>))"
  using assms by (simp add: CheckAndRecord_def Let_def)

lemma CheckAndRecord_live:
  assumes "store k = Some w" and "currentWindowStart t = windowStart w"
  shows "CheckAndRecord store k t =
           (count w + 1 \<le> LIMIT, store(k \<mapsto> w\<lparr>count := count w + 1\<rparr>))"
proof -
  have "\<not> windowStart w + WINDOW_MS \<le> t"
    using currentWindowStart_bounds(2)[OF assms(2)] by simp
  with assms(1) show ?thesis by (rule CheckAndRecord_running)
qed

lemma CheckAndRecord_fresh:
  assumes "noLiveWindow store k (currentWindowStart t)"
  shows "CheckAndRecord store k t =
           (True, store(k \<mapsto> \<lparr>count = 1, windowStart = currentWindowStart t\<rparr>))"
proof (cases "store k")
  case None
  then show ?thesis by (simp add: CheckAndRecord_def Let_def LIMIT_def)
next
  case (Some w)
  with assms have "windowStart w + WINDOW_MS \<le> currentWindowStart t"
    by (simp add: noLiveWindow_def)
  moreover have "currentWindowStart t \<le> t" by (simp add: currentWindowStart_def)
  ultimately have "windowStart w + WINDOW_MS \<le> t" by linarith
  with Some show ?thesis by (simp add: CheckAndRecord_def Let_def LIMIT_def)
qed

lemma callsFor_live:
  "store k = Some w \<Longrightarrow> \<forall>t\<in>set ts. currentWindowStart t = windowStart w \<Longrightarrow>
   callsFor store k ts =
     replicate (min (length ts) (LIMIT - count w)) True @
     replicate (length ts - (LIMIT - count w)) False"
proof (induction ts arbitrary: store w)
  case Nil
  show ?case by simp
next
  case (Cons t ts)
  let ?w' = "w\<lparr>count := count w + 1\<rparr>"
  let ?store' = "store(k \<mapsto> ?w')"
  have step: "CheckAndRecord store k t = (count w + 1 \<le> LIMIT, ?store')"
    using Cons.prems by (simp add: CheckAndRecord_live)
  have "?store' k = Some ?w'" by simp
  moreover have "\<forall>t\<in>set ts. currentWindowStart t = windowStart ?w'"
    using Cons.prems(2) by simp
  ultimately have ih: "callsFor ?store' k ts =
     replicate (min (length ts) (LIMIT - count ?w')) True @
     replicate (length ts - (LIMIT - count ?w')) False"
    by (rule Cons.IH)
  show ?case
  proof (cases "count w + 1 \<le> LIMIT")
    case True
    then have "LIMIT - count w = Suc (LIMIT - count ?w')" by simp
    then show ?thesis using step ih True by simp
  next
    case False
    then have "LIMIT - count w = 0" "LIMIT - count ?w' = 0" by simp_all
    then show ?thesis
      using step ih False by (simp add: replicate_Suc[symmetric] del: replicate_Suc)
  qed
qed

lemma CheckAndRecord_other_key:
  "k \<noteq> k' \<Longrightarrow> snd (CheckAndRecord store k t) k' = store k'"
  by (simp add: CheckAndRecord_def Let_def)

lemma CheckAndRecord_same_key:
  assumes "store k = store' k"
  shows "fst (CheckAndRecord store k t) = fst (CheckAndRecord store' k t)"
    and "snd (CheckAndRecord store k t) k = snd (CheckAndRecord store' k t) k"
  using assms by (simp_all add: CheckAndRecord_def Let_def)

lemma runCalls_ignores_other_key:
  assumes "k1 \<noteq> k2"
  shows "store k2 = store' k2 \<Longrightarrow>
     decisionsFor k2 (fst (runCalls store cs)) =
       decisionsFor k2 (fst (runCalls store' (filter (\<lambda>c. fst c \<noteq> k1) cs)))
     \<and> snd (runCalls store cs) k2 =
         snd (runCalls store' (filter (\<lambda>c. fst c \<noteq> k1) cs)) k2"
proof (induction cs arbitrary: store store')
  case Nil
  then show ?case by (simp add: decisionsFor_def)
next
  case (Cons c cs)
  obtain k t where c: "c = (k, t)" by (cases c)
  obtain a st1 where s1: "CheckAndRecord store k t = (a, st1)"
    by (cases "CheckAndRecord store k t")
  obtain rs st2 where r1: "runCalls st1 cs = (rs, st2)" by (cases "runCalls st1 cs")
  show ?case
  proof (cases "k = k1")
    case True
    have "st1 k2 = store k2"
      using CheckAndRecord_other_key[of k k2 store t] s1 True assms by simp
    then have "st1 k2 = store' k2" using Cons.prems by simp
    from Cons.IH[where store = st1 and store' = store', OF this] show ?thesis
      using c s1 r1 True assms by (simp add: decisionsFor_def)
  next
    case False
    obtain a' st1' where s1': "CheckAndRecord store' k t = (a', st1')"
      by (cases "CheckAndRecord store' k t")
    obtain rs' st2' where r1': "runCalls st1' (filter (\<lambda>c. fst c \<noteq> k1) cs) = (rs', st2')"
      by (cases "runCalls st1' (filter (\<lambda>c. fst c \<noteq> k1) cs)")
    have eq: "st1 k2 = st1' k2" and dec: "k = k2 \<Longrightarrow> a = a'"
    proof -
      show "st1 k2 = st1' k2"
      proof (cases "k = k2")
        case True
        then show ?thesis
          using CheckAndRecord_same_key(2)[of store k store' t] Cons.prems s1 s1' by simp
      next
        case False
        then show ?thesis
          using CheckAndRecord_other_key[of k k2 store t]
            CheckAndRecord_other_key[of k k2 store' t] Cons.prems s1 s1' by simp
      qed
      show "k = k2 \<Longrightarrow> a = a'"
        using CheckAndRecord_same_key(1)[of store k store' t] Cons.prems s1 s1' by simp
    qed
    from Cons.IH[where store = st1 and store' = st1', OF eq] show ?thesis
      using c s1 r1 s1' r1' False dec by (simp add: decisionsFor_def)
  qed
qed

lemma limit_invocations:
  "invocations (snd (limit rl key now)) = invocations rl @ [key]"
  by (simp add: limit_def split: prod.splits)

lemma limit_decision:
  "fst (limit rl key now) = fst (CheckAndRecord (windows rl) key now)"
  by (simp add: limit_def split: prod.splits)

section \<open>Facts about the text of numbers and dates\<close>

lemma isDigit_digit: "isDigit (digit n)"
proof -
  have "n mod 10 < length ''0123456789''" by simp
  then have "''0123456789'' ! (n mod 10) \<in> set ''0123456789''" by (rule nth_mem)
  then show ?thesis by (simp only: isDigit_def digit_def)
qed

lemma padStart_2: "padStart 2 n = [digit (n div 10), digit n]"
  by (simp add: numeral_2_eq_2)

lemma padStart_3: "padStart 3 n = [digit (n div 10 div 10), digit (n div 10), digit n]"
  by (simp add: numeral_3_eq_3)

lemma padStart_4:
  "padStart 4 n = [digit (n div 10 div 10 div 10), digit (n div 10 div 10), digit (n div 10), digit n]"
proof -
  have "padStart (Suc (Suc (Suc (Suc 0)))) n =
          [digit (n div 10 div 10 div 10), digit (n div 10 div 10), digit (n div 10), digit n]"
    by simp
  moreover have "(4::nat) = Suc (Suc (Suc (Suc 0)))" by simp
  ultimately show ?thesis by (simp only:)
qed

lemma padStart_6:
  "padStart 6 n =
     [digit (n div 10 div 10 div 10 div 10 div 10), digit (n div 10 div 10 div 10 div 10),
      digit (n div 10 div 10 div 10), digit (n div 10 div 10), digit (n div 10), digit n]"
proof -
  have "padStart (Suc (Suc (Suc (Suc (Suc (Suc 0)))))) n =
     [digit (n div 10 div 10 div 10 div 10 div 10), digit (n div 10 div 10 div 10 div 10),
      digit (n div 10 div 10 div 10), digit (n div 10 div 10), digit (n div 10), digit n]"
    by simp
  moreover have "(6::nat) = Suc (Suc (Suc (Suc (Suc (Suc 0)))))" by simp
  ultimately show ?thesis by (simp only:)
qed

lemma toISOString_is_iso: "isIso8601Utc (toISOString ms)"
proof -
  obtain y m d where c: "civilFromDays (ms div 86400000) = (y, m, d)"
    by (cases "civilFromDays (ms div 86400000)")
  show ?thesis
  proof (cases "y \<le> 9999")
    case True
    then show ?thesis
      by (simp add: toISOString_def Let_def c isIso8601Utc_def fitsTemplate_def
          padStart_2 padStart_3 padStart_4 isDigit_digit)
  next
    case False
    then show ?thesis
      by (simp add: toISOString_def Let_def c isIso8601Utc_def fitsTemplate_def
          padStart_2 padStart_3 padStart_6 isDigit_digit)
  qed
qed

lemma toString_60: "toString 60 = ''60''"
  by (simp add: toString.simps[of 60] toString.simps[of 6] digit_def)

lemma message_mentions_limit: "sublist (toString LIMIT) rateLimitMessage"
proof -
  have "sublist ''60'' (''Rate limit exceeded. Maximum '' @ ''60'' @ '' requests per minute allowed.'')"
    by (rule sublist_appendI)
  then show ?thesis
    by (simp add: rateLimitMessage_def LIMIT_def toString_60)
qed

lemma message_mentions_minute: "sublist ''minute'' rateLimitMessage"
proof -
  have "sublist ''minute'' (''Rate limit exceeded. Maximum 60 requests per '' @ ''minute'' @ '' allowed.'')"
    by (rule sublist_appendI)
  then show ?thesis
    by (simp add: rateLimitMessage_def)
qed

section \<open>Facts about the handler\<close>

lemma fetch_root_keyed:
  assumes "method request = ''GET''" and "pathname request = ''/''"
    and "getClientIp request = Some key" and "key \<noteq> []"
  shows "fetch now request env =
           (if fst (limit (IP_RATE_LIMITER env) key now)
            then createIpSuccessResponse (Some key) (getCountry request) (getCity request)
                   (getRegion request) now
            else createRateLimitResponse 60 now,
            env\<lparr>IP_RATE_LIMITER := snd (limit (IP_RATE_LIMITER env) key now)\<rparr>)"
  using assms by (simp add: fetch_def Let_def split: prod.splits)

lemma fetch_root_keyless:
  assumes "method request = ''GET''" and "pathname request = ''/''"
    and "getClientIp request = None \<or> getClientIp request = Some []"
  shows "fetch now request env =
           (createIpSuccessResponse (getClientIp request) (getCountry request)
              (getCity request) (getRegion request) now, env)"
  using assms by (auto simp add: fetch_def Let_def)

lemma fetch_off_root:
  assumes "\<not> (method request = ''GET'' \<and> pathname request = ''/'')"
  shows "fetch now request env =
           (if method request = ''OPTIONS'' then handleOptions
            else if method request \<noteq> ''GET'' then createMethodNotAllowedResponse now
            else if pathname request = ''/debug'' then
              createDebugResponse (getAllHeaders request) (cf request) now
            else createNotFoundResponse now, env)"
  using assms by (auto simp add: fetch_def)

lemma cors_on_every_builder:
  "getHeader handleOptions ''Access-Control-Allow-Origin'' = Some ''*''"
  "getHeader (createMethodNotAllowedResponse now) ''Access-Control-Allow-Origin'' = Some ''*''"
  "getHeader (createDebugResponse hs c now) ''Access-Control-Allow-Origin'' = Some ''*''"
  "getHeader (createNotFoundResponse now) ''Access-Control-Allow-Origin'' = Some ''*''"
  "getHeader (createRateLimitResponse n now) ''Access-Control-Allow-Origin'' = Some ''*''"
  "getHeader (createIpSuccessResponse i co ci re now) ''Access-Control-Allow-Origin'' = Some ''*''"
  by (simp_all add: getHeader_def handleOptions_def createMethodNotAllowedResponse_def
      createDebugResponse_def createNotFoundResponse_def createRateLimitResponse_def
      createIpSuccessResponse_def jsonHeaders_def corsHeaders_def)

lemma retry_after_header:
  "getHeader (createRateLimitResponse n now) ''Retry-After'' = Some (toString n)"
  by (simp add: getHeader_def createRateLimitResponse_def jsonHeaders_def corsHeaders_def)

section \<open>The claims\<close>

text \<open>
  C1. For every key \<open>k\<close> and every sequence of \<open>N\<close> calls to \<open>CheckAndRecord(k, now)\<close>
  with \<open>now\<close> held within a single fixed window, exactly \<open>min(N, LIMIT)\<close> of the calls
  return \<open>allowed = true\<close> and the \<open>(LIMIT+1)\<close>-th through \<open>N\<close>-th calls return
  \<open>allowed = false\<close>, with \<open>LIMIT = 60\<close> and \<open>WINDOW = 60\<close> seconds.

  The times \<open>ts\<close> of the calls all lie in the window that starts at \<open>s\<close>, in any order, and
  the calls are the key's first in that window. The decisions are then \<open>min(N, LIMIT)\<close>
  times \<open>True\<close> followed by \<open>N - LIMIT\<close> times \<open>False\<close>.
\<close>

theorem fixed_window_admits_exactly_limit:
  assumes "\<forall>t\<in>set ts. currentWindowStart t = s"
    and "noLiveWindow store k s"
  shows "callsFor store k ts =
           replicate (min (length ts) LIMIT) True @ replicate (length ts - LIMIT) False
         \<and> length (filter (\<lambda>a. a) (callsFor store k ts)) = min (length ts) LIMIT
         \<and> LIMIT = 60 \<and> WINDOW = 60 \<and> WINDOW_MS = 60 * 1000"
proof -
  have shape: "callsFor store k ts =
           replicate (min (length ts) LIMIT) True @ replicate (length ts - LIMIT) False"
  proof (cases ts)
    case Nil
    then show ?thesis by simp
  next
    case (Cons t ts')
    let ?w = "\<lparr>count = 1, windowStart = currentWindowStart t\<rparr>"
    let ?store' = "store(k \<mapsto> ?w)"
    have ts: "currentWindowStart t = s" using assms(1) Cons by simp
    have first: "CheckAndRecord store k t = (True, ?store')"
      using assms(2) ts by (simp add: CheckAndRecord_fresh)
    have "?store' k = Some ?w" by simp
    moreover have "\<forall>u\<in>set ts'. currentWindowStart u = windowStart ?w"
      using assms(1) Cons ts by simp
    ultimately have rest: "callsFor ?store' k ts' =
       replicate (min (length ts') (LIMIT - count ?w)) True @
       replicate (length ts' - (LIMIT - count ?w)) False"
      by (rule callsFor_live)
    have "LIMIT = Suc (LIMIT - count ?w)" by (simp add: LIMIT_def)
    then have m: "min (length ts) LIMIT = Suc (min (length ts') (LIMIT - count ?w))"
      and d: "length ts - LIMIT = length ts' - (LIMIT - count ?w)"
      using Cons by simp_all
    show ?thesis unfolding m d using first rest Cons by simp
  qed
  have "length (filter (\<lambda>a. a) (callsFor store k ts)) = min (length ts) LIMIT"
    unfolding shape by simp
  with shape show ?thesis by (simp add: LIMIT_def WINDOW_MS_def WINDOW_def)
qed

text \<open>
  Sixty-one calls at time 0 and one at the last millisecond of the same window, for a key
  never seen before: sixty are allowed, the last two denied.
\<close>

theorem fixed_window_admits_exactly_limit_witness:
  "currentWindowStart 0 = 0 \<and> currentWindowStart 59999 = 0
   \<and> noLiveWindow Map.empty ''1.2.3.4'' 0
   \<and> callsFor Map.empty ''1.2.3.4'' (replicate 61 0 @ [59999]) =
       replicate 60 True @ replicate 2 False"
proof -
  have a: "\<forall>t\<in>set (replicate 61 (0::nat) @ [59999]). currentWindowStart t = 0"
    by (simp add: currentWindowStart_def WINDOW_MS_def WINDOW_def)
  have b: "noLiveWindow Map.empty ''1.2.3.4'' 0" by (simp add: noLiveWindow_def)
  show ?thesis
    using a b fixed_window_admits_exactly_limit[OF a b] by (simp add: LIMIT_def)
qed

text \<open>
  C2. For every denied call at time \<open>t\<close> within the window
  \<open>[windowStart, windowStart + WINDOW)\<close>, the \<open>retryAfterSeconds\<close> value returned with the
  denial equals \<open>windowStart + WINDOW - t\<close>, rounded up to the nearest whole second, and is
  always at least 1.

  The claim fails on the handler. The binding returns \<open>{ success }\<close> and nothing else,
  and the retry value that goes out with a denial is the literal of
  \<open>createRateLimitResponse(60)\<close>. A client whose window started at 0 and who has used its
  sixty requests is denied at \<open>t = 30000\<close> ms: thirty seconds are left, and the response
  says \<open>Retry-After: 60\<close>.
\<close>

theorem retry_hint_counterexample:
  "windowStart \<lparr>count = 60, windowStart = 0\<rparr> \<le> 30000
   \<and> 30000 < windowStart \<lparr>count = 60, windowStart = 0\<rparr> + WINDOW_MS
   \<and> status (fst (fetch 30000 (rootRequest (Some ''1.2.3.4''))
         (envWith [''1.2.3.4'' \<mapsto> \<lparr>count = 60, windowStart = 0\<rparr>]))) = 429
   \<and> getHeader (fst (fetch 30000 (rootRequest (Some ''1.2.3.4''))
         (envWith [''1.2.3.4'' \<mapsto> \<lparr>count = 60, windowStart = 0\<rparr>]))) ''Retry-After'' =
       Some ''60''
   \<and> spec_retryAfterSeconds 0 30000 = 30
   \<and> toString (spec_retryAfterSeconds 0 30000) = ''30''
   \<and> getHeader (fst (fetch 30000 (rootRequest (Some ''1.2.3.4''))
         (envWith [''1.2.3.4'' \<mapsto> \<lparr>count = 60, windowStart = 0\<rparr>]))) ''Retry-After'' \<noteq>
       Some (toString (spec_retryAfterSeconds 0 30000))"
proof -
  have f: "fst (fetch 30000 (rootRequest (Some ''1.2.3.4''))
         (envWith [''1.2.3.4'' \<mapsto> \<lparr>count = 60, windowStart = 0\<rparr>])) =
       createRateLimitResponse 60 30000"
    by (simp add: fetch_def rootRequest_def envWith_def limit_def CheckAndRecord_def Let_def
        LIMIT_def WINDOW_MS_value)
  have r: "spec_retryAfterSeconds 0 30000 = 30"
    by (simp add: spec_retryAfterSeconds_def WINDOW_MS_value)
  have t: "toString 30 = ''30''"
    by (simp add: toString.simps[of 30] toString.simps[of 3] digit_def)
  have h: "getHeader (createRateLimitResponse 60 30000) ''Retry-After'' = Some ''60''"
    by (simp add: retry_after_header toString_60)
  have s: "status (createRateLimitResponse 60 30000) = 429"
    by (simp add: createRateLimitResponse_def)
  show ?thesis
    unfolding f r t h s by (simp add: WINDOW_MS_value)
qed

text \<open>
  C2 as amended. For every denied call at time \<open>t\<close> within the window
  \<open>[windowStart, windowStart + WINDOW)\<close>, the retry value sent with the denial is the
  constant 60, the whole window in seconds, whatever \<open>t\<close> is. It is at least 1 and never
  less than \<open>windowStart + WINDOW - t\<close> rounded up to whole seconds, and it equals that
  only while \<open>t\<close> is in the first second of the window.
\<close>

theorem retry_hint_is_the_window_length:
  assumes "method request = ''GET''" and "pathname request = ''/''"
    and "getClientIp request = Some key" and "key \<noteq> []"
    and "windows (IP_RATE_LIMITER env) key = Some w"
    and "windowStart w \<le> t" and "t < windowStart w + WINDOW_MS"
    and "LIMIT \<le> count w"
  shows "fst (fetch t request env) = createRateLimitResponse 60 t
       \<and> status (fst (fetch t request env)) = 429
       \<and> getHeader (fst (fetch t request env)) ''Retry-After'' = Some ''60''
       \<and> 1 \<le> spec_retryAfterSeconds (windowStart w) t
       \<and> spec_retryAfterSeconds (windowStart w) t \<le> 60
       \<and> (spec_retryAfterSeconds (windowStart w) t = 60) = (t < windowStart w + 1000)"
proof -
  have "\<not> windowStart w + WINDOW_MS \<le> t" using assms(7) by simp
  with assms(5) have "CheckAndRecord (windows (IP_RATE_LIMITER env)) key t =
      (count w + 1 \<le> LIMIT, (windows (IP_RATE_LIMITER env))(key \<mapsto> w\<lparr>count := count w + 1\<rparr>))"
    by (rule CheckAndRecord_running)
  then have "\<not> fst (CheckAndRecord (windows (IP_RATE_LIMITER env)) key t)"
    using assms(8) by simp
  then have denied: "\<not> fst (limit (IP_RATE_LIMITER env) key t)"
    by (simp add: limit_decision)
  have r: "fst (fetch t request env) = createRateLimitResponse 60 t"
    using fetch_root_keyed[OF assms(1-4), of t env] denied by simp
  have h: "getHeader (createRateLimitResponse 60 t) ''Retry-After'' = Some ''60''"
    by (simp add: retry_after_header toString_60)
  have s: "status (createRateLimitResponse 60 t) = 429"
    by (simp add: createRateLimitResponse_def)
  have lo: "1 \<le> spec_retryAfterSeconds (windowStart w) t"
    and hi: "spec_retryAfterSeconds (windowStart w) t \<le> 60"
    and eq: "(spec_retryAfterSeconds (windowStart w) t = 60) = (t < windowStart w + 1000)"
    using assms(6,7) unfolding spec_retryAfterSeconds_def WINDOW_MS_value by linarith+
  show ?thesis unfolding r using h s lo hi eq by simp
qed

text \<open>
  The denial of the counterexample, at \<open>t = 30000\<close> ms in the window that started at 0:
  the header says 60 while 30 seconds are left.
\<close>

theorem retry_hint_is_the_window_length_witness:
  "method (rootRequest (Some ''1.2.3.4'')) = ''GET''
   \<and> pathname (rootRequest (Some ''1.2.3.4'')) = ''/''
   \<and> getClientIp (rootRequest (Some ''1.2.3.4'')) = Some ''1.2.3.4''
   \<and> ''1.2.3.4'' \<noteq> []
   \<and> windows (IP_RATE_LIMITER (envWith [''1.2.3.4'' \<mapsto> \<lparr>count = 60, windowStart = 0\<rparr>]))
        ''1.2.3.4'' = Some \<lparr>count = 60, windowStart = 0\<rparr>
   \<and> windowStart \<lparr>count = 60, windowStart = 0\<rparr> \<le> 30000
   \<and> 30000 < windowStart \<lparr>count = 60, windowStart = 0\<rparr> + WINDOW_MS
   \<and> LIMIT \<le> count \<lparr>count = 60, windowStart = 0\<rparr>
   \<and> getHeader (fst (fetch 30000 (rootRequest (Some ''1.2.3.4''))
         (envWith [''1.2.3.4'' \<mapsto> \<lparr>count = 60, windowStart = 0\<rparr>]))) ''Retry-After'' =
       Some ''60''
   \<and> spec_retryAfterSeconds (windowStart \<lparr>count = 60, windowStart = 0\<rparr>) 30000 \<le> 60"
proof -
  have a: "method (rootRequest (Some ''1.2.3.4'')) = ''GET''"
    "pathname (rootRequest (Some ''1.2.3.4'')) = ''/''"
    "getClientIp (rootRequest (Some ''1.2.3.4'')) = Some ''1.2.3.4''"
    "''1.2.3.4'' \<noteq> []"
    by (simp_all add: rootRequest_def)
  have b: "windows (IP_RATE_LIMITER (envWith [''1.2.3.4'' \<mapsto> \<lparr>count = 60, windowStart = 0\<rparr>]))
        ''1.2.3.4'' = Some \<lparr>count = 60, windowStart = 0\<rparr>"
    by (simp add: envWith_def)
  have c: "windowStart \<lparr>count = 60, windowStart = 0\<rparr> \<le> 30000"
    "30000 < windowStart \<lparr>count = 60, windowStart = 0\<rparr> + WINDOW_MS"
    "LIMIT \<le> count \<lparr>count = 60, windowStart = 0\<rparr>"
    by (simp_all add: WINDOW_MS_value LIMIT_def)
  note hint = retry_hint_is_the_window_length[OF a b c]
  show ?thesis
    by (intro conjI a b c hint[THEN conjunct2, THEN conjunct2, THEN conjunct1]
        hint[THEN conjunct2, THEN conjunct2, THEN conjunct2, THEN conjunct2, THEN conjunct1])
qed

text \<open>
  C3. For every request whose key fails basic validity constraints (empty or oversized),
  an \<open>InvalidKey\<close> signal is surfaced to the caller rather than a rate-limit decision, and
  the router responds with an internal error (HTTP 500), never with a 429 or a success
  response.

  The claim fails on the handler, which has no such path: \<open>HttpStatus\<close> in
  \<open>src/unnamed/part_000\<close> has no 500, and the result of the binding is only \<open>success\<close>.
  A first request whose key is 300 characters long is answered 200, and so is a request
  whose key is the empty string.
\<close>

theorem invalid_key_counterexample:
  "256 < length (replicate 300 CHR ''9'')
   \<and> status (fst (fetch 0 (rootRequest (Some (replicate 300 CHR ''9''))) (envWith Map.empty))) = 200
   \<and> status (fst (fetch 0 (rootRequest (Some (replicate 300 CHR ''9''))) (envWith Map.empty))) \<noteq> 500
   \<and> invocations (IP_RATE_LIMITER (snd (fetch 0 (rootRequest (Some (replicate 300 CHR ''9'')))
        (envWith Map.empty)))) = [replicate 300 CHR ''9'']
   \<and> status (fst (fetch 0 (rootRequest (Some [])) (envWith Map.empty))) = 200
   \<and> status (fst (fetch 0 (rootRequest (Some [])) (envWith Map.empty))) \<noteq> 500"
  by (simp add: fetch_def rootRequest_def envWith_def limit_def CheckAndRecord_def Let_def
      LIMIT_def createIpSuccessResponse_def)

text \<open>
  C3 as amended. No request gets an \<open>InvalidKey\<close> signal or an HTTP 500 from the router:
  for every \<open>GET\<close> for the root path on which a key is extracted, whatever its length, the
  response is 200 or 429. An empty key skips the limiter and gets the success response;
  any other key, oversized or not, is passed to the limiter unchanged, and the response
  is 200 exactly when the limiter allows it and 429 otherwise.
\<close>

theorem every_key_gets_200_or_429:
  assumes "method request = ''GET''" and "pathname request = ''/''"
    and "getClientIp request = Some key"
  shows "(status (fst (fetch now request env)) = 200 \<or> status (fst (fetch now request env)) = 429)
       \<and> status (fst (fetch now request env)) \<noteq> 500
       \<and> (if key = []
           then fetch now request env =
                  (createIpSuccessResponse (Some []) (getCountry request) (getCity request)
                     (getRegion request) now, env)
                \<and> status (fst (fetch now request env)) = 200
           else invocations (IP_RATE_LIMITER (snd (fetch now request env))) =
                  invocations (IP_RATE_LIMITER env) @ [key]
                \<and> (status (fst (fetch now request env)) = 200) =
                    fst (limit (IP_RATE_LIMITER env) key now)
                \<and> (status (fst (fetch now request env)) = 429) =
                    (\<not> fst (limit (IP_RATE_LIMITER env) key now)))"
proof (cases "key = []")
  case True
  then have "fetch now request env =
      (createIpSuccessResponse (Some []) (getCountry request) (getCity request)
         (getRegion request) now, env)"
    using fetch_root_keyless[of request now env] assms by simp
  then show ?thesis using True by (simp add: createIpSuccessResponse_def)
next
  case False
  from fetch_root_keyed[OF assms False, of now env]
    limit_invocations[of "IP_RATE_LIMITER env" key now] False
  show ?thesis
    by (simp add: createIpSuccessResponse_def createRateLimitResponse_def)
qed

text \<open>
  A key of 300 characters whose window is used up: it goes to the limiter as it is, and the
  answer is 429, not 500.
\<close>

theorem every_key_gets_200_or_429_witness:
  "method (rootRequest (Some (replicate 300 CHR ''9''))) = ''GET''
   \<and> pathname (rootRequest (Some (replicate 300 CHR ''9''))) = ''/''
   \<and> getClientIp (rootRequest (Some (replicate 300 CHR ''9''))) = Some (replicate 300 CHR ''9'')
   \<and> \<not> fst (limit (IP_RATE_LIMITER
         (envWith [replicate 300 CHR ''9'' \<mapsto> \<lparr>count = 60, windowStart = 0\<rparr>]))
         (replicate 300 CHR ''9'') 30000)
   \<and> status (fst (fetch 30000 (rootRequest (Some (replicate 300 CHR ''9'')))
         (envWith [replicate 300 CHR ''9'' \<mapsto> \<lparr>count = 60, windowStart = 0\<rparr>]))) = 429
   \<and> invocations (IP_RATE_LIMITER (snd (fetch 30000 (rootRequest (Some (replicate 300 CHR ''9'')))
         (envWith [replicate 300 CHR ''9'' \<mapsto> \<lparr>count = 60, windowStart = 0\<rparr>])))) =
       [replicate 300 CHR ''9'']"
proof -
  have a: "method (rootRequest (Some (replicate 300 CHR ''9''))) = ''GET''"
    "pathname (rootRequest (Some (replicate 300 CHR ''9''))) = ''/''"
    "getClientIp (rootRequest (Some (replicate 300 CHR ''9''))) = Some (replicate 300 CHR ''9'')"
    by (simp_all add: rootRequest_def)
  have b: "\<not> fst (limit (IP_RATE_LIMITER
         (envWith [replicate 300 CHR ''9'' \<mapsto> \<lparr>count = 60, windowStart = 0\<rparr>]))
         (replicate 300 CHR ''9'') 30000)"
    by (simp add: envWith_def limit_def CheckAndRecord_def Let_def LIMIT_def WINDOW_MS_value)
  have c: "invocations (IP_RATE_LIMITER
         (envWith [replicate 300 CHR ''9'' \<mapsto> \<lparr>count = 60, windowStart = 0\<rparr>])) = []"
    by (simp add: envWith_def)
  have ne: "replicate 300 CHR ''9'' \<noteq> []" by simp
  note any = every_key_gets_200_or_429[OF a, of 30000
      "envWith [replicate 300 CHR ''9'' \<mapsto> \<lparr>count = 60, windowStart = 0\<rparr>]",
      THEN conjunct2, THEN conjunct2]
  have i: "invocations (IP_RATE_LIMITER (snd (fetch 30000 (rootRequest (Some (replicate 300 CHR ''9'')))
         (envWith [replicate 300 CHR ''9'' \<mapsto> \<lparr>count = 60, windowStart = 0\<rparr>])))) =
       [replicate 300 CHR ''9'']"
    using any ne c by (simp only: if_False append_Nil)
  have s: "status (fst (fetch 30000 (rootRequest (Some (replicate 300 CHR ''9'')))
         (envWith [replicate 300 CHR ''9'' \<mapsto> \<lparr>count = 60, windowStart = 0\<rparr>]))) = 429"
    using any ne b by (simp only: if_False simp_thms)
  show ?thesis by (intro conjI a b s i)
qed

text \<open>
  C4. For every request denied by the rate limiter, the response has HTTP status 429, a
  JSON body with an \<open>error\<close> field whose message mentions the numeric limit and the word
  ``minute'' and a \<open>timestamp\<close> field in ISO-8601 UTC, and a \<open>Retry-After\<close> header carrying
  \<open>retryAfterSeconds\<close>.

  The claim fails on the handler in its last part. \<open>retryAfterSeconds\<close> is the time left
  until \<open>windowStart + WINDOW\<close>, in whole seconds; the handler reads only \<open>success\<close> from
  the binding and answers every denial with \<open>createRateLimitResponse(60)\<close>. A client whose
  window started at 04:32:00 UTC on 2026-01-11 and who has used its sixty requests is
  denied at 04:32:38: the response has status 429, twenty-two seconds are left, and the
  header says \<open>Retry-After: 60\<close>.
\<close>

theorem retry_after_header_counterexample:
  "windowStart \<lparr>count = 60, windowStart = 1768105920000\<rparr> \<le> 1768105958000
   \<and> 1768105958000 < windowStart \<lparr>count = 60, windowStart = 1768105920000\<rparr> + WINDOW_MS
   \<and> \<not> fst (limit (IP_RATE_LIMITER
         (envWith [''203.0.113.42'' \<mapsto> \<lparr>count = 60, windowStart = 1768105920000\<rparr>]))
         ''203.0.113.42'' 1768105958000)
   \<and> status (fst (fetch 1768105958000 (rootRequest (Some ''203.0.113.42''))
         (envWith [''203.0.113.42'' \<mapsto> \<lparr>count = 60, windowStart = 1768105920000\<rparr>]))) = 429
   \<and> getHeader (fst (fetch 1768105958000 (rootRequest (Some ''203.0.113.42''))
         (envWith [''203.0.113.42'' \<mapsto> \<lparr>count = 60, windowStart = 1768105920000\<rparr>])))
         ''Retry-After'' = Some ''60''
   \<and> spec_retryAfterSeconds 1768105920000 1768105958000 = 22
   \<and> toString (spec_retryAfterSeconds 1768105920000 1768105958000) = ''22''
   \<and> getHeader (fst (fetch 1768105958000 (rootRequest (Some ''203.0.113.42''))
         (envWith [''203.0.113.42'' \<mapsto> \<lparr>count = 60, windowStart = 1768105920000\<rparr>])))
         ''Retry-After'' \<noteq>
       Some (toString (spec_retryAfterSeconds 1768105920000 1768105958000))"
proof -
  have d: "\<not> fst (limit (IP_RATE_LIMITER
         (envWith [''203.0.113.42'' \<mapsto> \<lparr>count = 60, windowStart = 1768105920000\<rparr>]))
         ''203.0.113.42'' 1768105958000)"
    by (simp add: envWith_def limit_def CheckAndRecord_def Let_def LIMIT_def WINDOW_MS_value)
  have f: "fst (fetch 1768105958000 (rootRequest (Some ''203.0.113.42''))
         (envWith [''203.0.113.42'' \<mapsto> \<lparr>count = 60, windowStart = 1768105920000\<rparr>])) =
       createRateLimitResponse 60 1768105958000"
    by (simp add: fetch_def rootRequest_def envWith_def limit_def CheckAndRecord_def Let_def
        LIMIT_def WINDOW_MS_value)
  have r: "spec_retryAfterSeconds 1768105920000 1768105958000 = 22"
    by (simp add: spec_retryAfterSeconds_def WINDOW_MS_value)
  have t: "toString 22 = ''22''"
    by (simp add: toString.simps[of 22] toString.simps[of 2] digit_def)
  have h: "getHeader (createRateLimitResponse 60 1768105958000) ''Retry-After'' = Some ''60''"
    by (simp add: retry_after_header toString_60)
  have s: "status (createRateLimitResponse 60 1768105958000) = 429"
    by (simp add: createRateLimitResponse_def)
  have w: "windowStart \<lparr>count = 60, windowStart = 1768105920000\<rparr> \<le> 1768105958000"
    "1768105958000 < windowStart \<lparr>count = 60, windowStart = 1768105920000\<rparr> + WINDOW_MS"
    by (simp_all add: WINDOW_MS_value)
  have ne: "Some ''60'' \<noteq> Some ''22''" by simp
  show ?thesis
    unfolding f r t h s by (intro conjI w d refl ne)
qed

text \<open>
  C4 as amended. For every request denied by the rate limiter, the response has HTTP
  status 429, a JSON body with an \<open>error\<close> field whose message mentions the numeric limit
  and the word ``minute'' and a \<open>timestamp\<close> field in ISO-8601 UTC, and a \<open>Retry-After\<close>
  header carrying the constant 60, whatever time is left in the window.

  When the binding denies a \<open>GET\<close> for the root path, at any time and in any state, the
  response is \<open>createRateLimitResponse 60\<close>: status 429, an error payload whose message
  contains the decimal of \<open>LIMIT\<close> and the word \<open>minute\<close>, a time stamp that is an
  ISO-8601 UTC text of the clock reading, a JSON content type, and \<open>Retry-After: 60\<close>.
\<close>

theorem denied_request_gets_429:
  assumes "method request = ''GET''" and "pathname request = ''/''"
    and "getClientIp request = Some key" and "key \<noteq> []"
    and "\<not> fst (limit (IP_RATE_LIMITER env) key now)"
  shows "fst (fetch now request env) = createRateLimitResponse 60 now
       \<and> status (fst (fetch now request env)) = 429
       \<and> body (fst (fetch now request env)) =
           ErrorBody \<lparr>error = rateLimitMessage, timestamp = toISOString now\<rparr>
       \<and> sublist (toString LIMIT) rateLimitMessage
       \<and> sublist ''minute'' rateLimitMessage
       \<and> isIso8601Utc (toISOString now)
       \<and> getHeader (fst (fetch now request env)) ''Retry-After'' = Some ''60''
       \<and> getHeader (fst (fetch now request env)) ''Content-Type'' = Some ''application/json''"
proof -
  have r: "fst (fetch now request env) = createRateLimitResponse 60 now"
    using fetch_root_keyed[OF assms(1-4), of now env] assms(5) by simp
  have c: "getHeader (createRateLimitResponse 60 now) ''Content-Type'' = Some ''application/json''"
    by (simp add: getHeader_def createRateLimitResponse_def jsonHeaders_def corsHeaders_def)
  have h: "getHeader (createRateLimitResponse 60 now) ''Retry-After'' = Some ''60''"
    by (simp add: retry_after_header toString_60)
  show ?thesis
    unfolding r
    using c h message_mentions_limit message_mentions_minute toISOString_is_iso[of now]
    by (simp add: createRateLimitResponse_def)
qed

text \<open>
  The README's example: the denial above, at 2026-01-11 04:32:38 UTC, gets the documented
  body and \<open>Retry-After: 60\<close>.
\<close>

theorem denied_request_gets_429_witness:
  "method (rootRequest (Some ''203.0.113.42'')) = ''GET''
   \<and> pathname (rootRequest (Some ''203.0.113.42'')) = ''/''
   \<and> getClientIp (rootRequest (Some ''203.0.113.42'')) = Some ''203.0.113.42''
   \<and> ''203.0.113.42'' \<noteq> []
   \<and> \<not> fst (limit (IP_RATE_LIMITER
         (envWith [''203.0.113.42'' \<mapsto> \<lparr>count = 60, windowStart = 1768105920000\<rparr>]))
         ''203.0.113.42'' 1768105958000)
   \<and> status (fst (fetch 1768105958000 (rootRequest (Some ''203.0.113.42''))
         (envWith [''203.0.113.42'' \<mapsto> \<lparr>count = 60, windowStart = 1768105920000\<rparr>]))) = 429
   \<and> body (fst (fetch 1768105958000 (rootRequest (Some ''203.0.113.42''))
         (envWith [''203.0.113.42'' \<mapsto> \<lparr>count = 60, windowStart = 1768105920000\<rparr>]))) =
       ErrorBody \<lparr>error = ''Rate limit exceeded. Maximum 60 requests per minute allowed.'',
                  timestamp = ''2026-01-11T04:32:38.000Z''\<rparr>
   \<and> getHeader (fst (fetch 1768105958000 (rootRequest (Some ''203.0.113.42''))
         (envWith [''203.0.113.42'' \<mapsto> \<lparr>count = 60, windowStart = 1768105920000\<rparr>])))
         ''Retry-After'' = Some ''60''"
proof -
  have a: "method (rootRequest (Some ''203.0.113.42'')) = ''GET''"
    "pathname (rootRequest (Some ''203.0.113.42'')) = ''/''"
    "getClientIp (rootRequest (Some ''203.0.113.42'')) = Some ''203.0.113.42''"
    "''203.0.113.42'' \<noteq> []"
    by (simp_all add: rootRequest_def)
  have b: "\<not> fst (limit (IP_RATE_LIMITER
         (envWith [''203.0.113.42'' \<mapsto> \<lparr>count = 60, windowStart = 1768105920000\<rparr>]))
         ''203.0.113.42'' 1768105958000)"
    by (simp add: envWith_def limit_def CheckAndRecord_def Let_def LIMIT_def WINDOW_MS_value)
  have day: "civilFromDays 20464 = (2026, 1, 11)"
    by (simp add: civilFromDays_def cong: let_weak_cong)
  have ts: "toISOString 1768105958000 = ''2026-01-11T04:32:38.000Z''"
    by (simp add: toISOString_def day padStart_2 padStart_3 padStart_4 digit_def
        cong: let_weak_cong)
  note denied = denied_request_gets_429[OF a b]
  have s: "status (fst (fetch 1768105958000 (rootRequest (Some ''203.0.113.42''))
         (envWith [''203.0.113.42'' \<mapsto> \<lparr>count = 60, windowStart = 1768105920000\<rparr>]))) = 429"
    using denied[THEN conjunct2, THEN conjunct1] .
  have p: "body (fst (fetch 1768105958000 (rootRequest (Some ''203.0.113.42''))
         (envWith [''203.0.113.42'' \<mapsto> \<lparr>count = 60, windowStart = 1768105920000\<rparr>]))) =
       ErrorBody \<lparr>error = ''Rate limit exceeded. Maximum 60 requests per minute allowed.'',
                  timestamp = ''2026-01-11T04:32:38.000Z''\<rparr>"
    using denied[THEN conjunct2, THEN conjunct2, THEN conjunct1]
    by (simp only: ts rateLimitMessage_def)
  have h: "getHeader (fst (fetch 1768105958000 (rootRequest (Some ''203.0.113.42''))
         (envWith [''203.0.113.42'' \<mapsto> \<lparr>count = 60, windowStart = 1768105920000\<rparr>])))
         ''Retry-After'' = Some ''60''"
    using denied[THEN conjunct2, THEN conjunct2, THEN conjunct2, THEN conjunct2,
        THEN conjunct2, THEN conjunct2, THEN conjunct1] .
  show ?thesis by (intro conjI a b s p h)
qed

text \<open>
  C5. For every admitted-candidate request, the router calls \<open>CheckAndRecord(key, now)\<close>
  exactly once, after extracting the client key and before producing a success response; a
  success response is never produced for such a request without a prior \<open>allowed = true\<close>
  decision.

  The claim fails on the handler for the requests on which no key is extracted: the guard
  \<open>if (ip)\<close> sends them past the limiter. A \<open>GET\<close> for the root path with
  \<open>getClientIp\<close> giving \<open>null\<close> is answered with the success response, status 200, and
  the binding has not been invoked: no decision preceded the response.
\<close>

theorem success_without_decision_counterexample:
  "method (rootRequest None) = ''GET''
   \<and> pathname (rootRequest None) = ''/''
   \<and> status (fst (fetch 0 (rootRequest None) (envWith Map.empty))) = 200
   \<and> invocations (IP_RATE_LIMITER (snd (fetch 0 (rootRequest None) (envWith Map.empty)))) = []
   \<and> snd (fetch 0 (rootRequest None) (envWith Map.empty)) = envWith Map.empty"
  by (simp add: fetch_def rootRequest_def envWith_def createIpSuccessResponse_def)

text \<open>
  C5 as amended. For every \<open>GET\<close> request to the root path on which a non-empty client
  key was extracted, the router calls the limiter exactly once, with that key, after
  extracting it and before producing a response; a success response is never produced for
  such a request without a prior \<open>allowed = true\<close> decision.

  For such a request the binding after the call is the binding after one \<open>limit\<close> on the
  extracted key, its log is longer by exactly that key, and the response is the success
  response exactly when that one decision was \<open>success\<close>, and the 429 response
  otherwise.
\<close>

theorem limiter_called_once_before_success:
  assumes "method request = ''GET''" and "pathname request = ''/''"
    and "getClientIp request = Some key" and "key \<noteq> []"
  shows "IP_RATE_LIMITER (snd (fetch now request env)) =
           snd (limit (IP_RATE_LIMITER env) key now)
       \<and> invocations (IP_RATE_LIMITER (snd (fetch now request env))) =
           invocations (IP_RATE_LIMITER env) @ [key]
       \<and> fst (fetch now request env) =
           (if fst (limit (IP_RATE_LIMITER env) key now)
            then createIpSuccessResponse (Some key) (getCountry request) (getCity request)
                   (getRegion request) now
            else createRateLimitResponse 60 now)
       \<and> (status (fst (fetch now request env)) = 200) =
           fst (limit (IP_RATE_LIMITER env) key now)"
  using fetch_root_keyed[OF assms, of now env] limit_invocations[of "IP_RATE_LIMITER env" key now]
  by (simp add: createIpSuccessResponse_def createRateLimitResponse_def)

text \<open>
  A first request of a client: one invocation with its key, the decision is \<open>success\<close>
  and the response is 200.
\<close>

theorem limiter_called_once_before_success_witness:
  "method (rootRequest (Some ''1.2.3.4'')) = ''GET''
   \<and> pathname (rootRequest (Some ''1.2.3.4'')) = ''/''
   \<and> getClientIp (rootRequest (Some ''1.2.3.4'')) = Some ''1.2.3.4''
   \<and> ''1.2.3.4'' \<noteq> []
   \<and> fst (limit (IP_RATE_LIMITER (envWith Map.empty)) ''1.2.3.4'' 0)
   \<and> invocations (IP_RATE_LIMITER (snd (fetch 0 (rootRequest (Some ''1.2.3.4''))
        (envWith Map.empty)))) = [''1.2.3.4'']
   \<and> status (fst (fetch 0 (rootRequest (Some ''1.2.3.4'')) (envWith Map.empty))) = 200"
proof -
  have a: "method (rootRequest (Some ''1.2.3.4'')) = ''GET''"
    "pathname (rootRequest (Some ''1.2.3.4'')) = ''/''"
    "getClientIp (rootRequest (Some ''1.2.3.4'')) = Some ''1.2.3.4''"
    "''1.2.3.4'' \<noteq> []"
    by (simp_all add: rootRequest_def)
  have b: "fst (limit (IP_RATE_LIMITER (envWith Map.empty)) ''1.2.3.4'' 0)"
    by (simp add: envWith_def limit_def CheckAndRecord_def Let_def LIMIT_def)
  have c: "invocations (IP_RATE_LIMITER (envWith Map.empty)) = []"
    by (simp add: envWith_def)
  note once = limiter_called_once_before_success[OF a, of 0 "envWith Map.empty"]
  have i: "invocations (IP_RATE_LIMITER (snd (fetch 0 (rootRequest (Some ''1.2.3.4''))
        (envWith Map.empty)))) = [''1.2.3.4'']"
    using once[THEN conjunct2, THEN conjunct1] c by simp
  have s: "status (fst (fetch 0 (rootRequest (Some ''1.2.3.4'')) (envWith Map.empty))) = 200"
    using once[THEN conjunct2, THEN conjunct2, THEN conjunct2] b by simp
  show ?thesis by (intro conjI a b i s)
qed

text \<open>
  C6. Every response, whether the request was allowed or denied by the rate limiter,
  carries the CORS header \<open>Access-Control-Allow-Origin: *\<close>; a denied (429) response never
  omits it.

  Whatever the request, the environment and the time, the response of the handler has the
  header; this covers the allowed and the denied answers to a \<open>GET\<close> for the root path.
\<close>

theorem every_response_has_cors:
  "getHeader (fst (fetch now request env)) ''Access-Control-Allow-Origin'' = Some ''*''"
proof (cases "method request = ''GET'' \<and> pathname request = ''/''")
  case False
  then show ?thesis by (simp add: fetch_off_root cors_on_every_builder)
next
  case True
  then have g: "method request = ''GET''" "pathname request = ''/''" by simp_all
  show ?thesis
  proof (cases "getClientIp request = None \<or> getClientIp request = Some []")
    case True
    with g show ?thesis by (simp add: fetch_root_keyless cors_on_every_builder)
  next
    case False
    then obtain key where k: "getClientIp request = Some key" "key \<noteq> []" by auto
    show ?thesis
      using fetch_root_keyed[OF g k, of now env] by (simp add: cors_on_every_builder)
  qed
qed

text \<open>A denied request: the response is a 429 and has the header.\<close>

theorem every_response_has_cors_witness:
  "status (fst (fetch 30000 (rootRequest (Some ''1.2.3.4''))
      (envWith [''1.2.3.4'' \<mapsto> \<lparr>count = 60, windowStart = 0\<rparr>]))) = 429
   \<and> getHeader (fst (fetch 30000 (rootRequest (Some ''1.2.3.4''))
      (envWith [''1.2.3.4'' \<mapsto> \<lparr>count = 60, windowStart = 0\<rparr>])))
        ''Access-Control-Allow-Origin'' = Some ''*''"
proof -
  have "status (fst (fetch 30000 (rootRequest (Some ''1.2.3.4''))
      (envWith [''1.2.3.4'' \<mapsto> \<lparr>count = 60, windowStart = 0\<rparr>]))) = 429"
    by (simp add: fetch_def rootRequest_def envWith_def limit_def CheckAndRecord_def Let_def
        LIMIT_def WINDOW_MS_value createRateLimitResponse_def)
  then show ?thesis
    using every_response_has_cors[of 30000 "rootRequest (Some ''1.2.3.4'')"
        "envWith [''1.2.3.4'' \<mapsto> \<lparr>count = 60, windowStart = 0\<rparr>]"]
    by simp
qed

text \<open>
  C7. For every pair of distinct keys \<open>k1 \<noteq> k2\<close> and every interleaving of
  \<open>CheckAndRecord\<close> calls for them, the calls for \<open>k1\<close> leave the window state (count and
  windowStart) of \<open>k2\<close> unchanged, and vice versa; decisions for one key are unaffected by
  traffic on the other.

  A call for one key leaves the other key's entry of the store as it was, in both
  directions. In any run \<open>cs\<close> of calls, whatever keys it mixes, striking out every call
  for \<open>k1\<close> changes neither the decisions that \<open>k2\<close> gets nor the state \<open>k2\<close> ends in.
\<close>

theorem distinct_keys_are_independent:
  assumes "k1 \<noteq> k2"
  shows "snd (CheckAndRecord store k1 t) k2 = store k2
       \<and> snd (CheckAndRecord store k2 t) k1 = store k1
       \<and> decisionsFor k2 (fst (runCalls store cs)) =
           decisionsFor k2 (fst (runCalls store (filter (\<lambda>c. fst c \<noteq> k1) cs)))
       \<and> snd (runCalls store cs) k2 =
           snd (runCalls store (filter (\<lambda>c. fst c \<noteq> k1) cs)) k2"
proof -
  have "k2 \<noteq> k1" using assms by simp
  then have second: "snd (CheckAndRecord store k2 t) k1 = store k1"
    by (rule CheckAndRecord_other_key)
  have first: "snd (CheckAndRecord store k1 t) k2 = store k2"
    using assms by (rule CheckAndRecord_other_key)
  have "store k2 = store k2" by simp
  from runCalls_ignores_other_key[where store = store and store' = store, OF assms this]
    first second show ?thesis by simp
qed

text \<open>
  Two clients in one window: the second key's two calls are allowed with or without the
  first key's sixty-one calls in between, and it ends with a count of two.
\<close>

theorem distinct_keys_are_independent_witness:
  "''1.2.3.4'' \<noteq> ''5.6.7.8''
   \<and> decisionsFor ''5.6.7.8''
        (fst (runCalls Map.empty
           ((''5.6.7.8'', 0) # map (\<lambda>t. (''1.2.3.4'', t)) (replicate 61 5) @ [(''5.6.7.8'', 7)]))) =
       [True, True]
   \<and> snd (runCalls Map.empty
           ((''5.6.7.8'', 0) # map (\<lambda>t. (''1.2.3.4'', t)) (replicate 61 5) @ [(''5.6.7.8'', 7)]))
         ''5.6.7.8'' = Some \<lparr>count = 2, windowStart = 0\<rparr>"
proof -
  have ne: "''1.2.3.4'' \<noteq> ''5.6.7.8''" by simp
  have strike: "filter (\<lambda>c. fst c \<noteq> ''1.2.3.4'')
          ((''5.6.7.8'', 0::nat) # map (\<lambda>t. (''1.2.3.4'', t)) (replicate 61 5) @ [(''5.6.7.8'', 7)]) =
        [(''5.6.7.8'', 0), (''5.6.7.8'', 7)]"
    by simp
  have alone: "fst (runCalls Map.empty [(''5.6.7.8'', 0), (''5.6.7.8'', 7)]) =
        [(''5.6.7.8'', True), (''5.6.7.8'', True)]"
    "snd (runCalls Map.empty [(''5.6.7.8'', 0), (''5.6.7.8'', 7)]) ''5.6.7.8'' =
        Some \<lparr>count = 2, windowStart = 0\<rparr>"
    by (simp_all add: CheckAndRecord_def Let_def currentWindowStart_def WINDOW_MS_value LIMIT_def)
  show ?thesis
    using ne distinct_keys_are_independent[OF ne, of Map.empty 0
        "(''5.6.7.8'', 0) # map (\<lambda>t. (''1.2.3.4'', t)) (replicate 61 5) @ [(''5.6.7.8'', 7)]"]
    unfolding strike alone by (simp add: decisionsFor_def)
qed

text \<open>
  C9. For every \<open>GET\<close> request to the root path for which the extracted client IP is
  null, the handler skips the rate limiter entirely (the limiter is never invoked) and
  still returns the normal success response with \<open>ip\<close> set to null; such requests are
  never rate limited regardless of their volume.

  One such request leaves the environment, and with it the binding's windows and its log
  of invocations, exactly as it was, and is answered by the success response built for
  \<open>ip = null\<close>. Any number of them, served one after the other, all get status 200 and
  leave the environment as it was.
\<close>

theorem keyless_request_skips_limiter:
  assumes "method request = ''GET''" and "pathname request = ''/''"
    and "getClientIp request = None"
    and "\<forall>(t, r)\<in>set rs. method r = ''GET'' \<and> pathname r = ''/'' \<and> getClientIp r = None"
  shows "fetch now request env =
           (createIpSuccessResponse None (getCountry request) (getCity request)
              (getRegion request) now, env)
       \<and> status (fst (fetch now request env)) = 200
       \<and> body (fst (fetch now request env)) =
           IpBody \<lparr>ip = None, country = getCountry request, city = getCity request,
                   region = getRegion request, ipTimestamp = toISOString now\<rparr>
       \<and> snd (serve env rs) = env
       \<and> map status (fst (serve env rs)) = replicate (length rs) 200"
proof -
  have one: "fetch now request env =
           (createIpSuccessResponse None (getCountry request) (getCity request)
              (getRegion request) now, env)"
    using fetch_root_keyless[of request now env] assms(1-3) by simp
  have many: "snd (serve env rs) = env
       \<and> map status (fst (serve env rs)) = replicate (length rs) 200"
    using assms(4)
  proof (induction rs)
    case Nil
    show ?case by simp
  next
    case (Cons a rs)
    obtain t r where a: "a = (t, r)" by (cases a)
    have r: "method r = ''GET''" "pathname r = ''/''" "getClientIp r = None"
      using Cons.prems a by simp_all
    have step: "fetch t r env =
           (createIpSuccessResponse None (getCountry r) (getCity r) (getRegion r) t, env)"
      using fetch_root_keyless[of r t env] r by simp
    have "\<forall>(t, r)\<in>set rs. method r = ''GET'' \<and> pathname r = ''/'' \<and> getClientIp r = None"
      using Cons.prems by simp
    from Cons.IH[OF this] have ih: "snd (serve env rs) = env"
      "map status (fst (serve env rs)) = replicate (length rs) 200"
      by simp_all
    obtain resps env' where s: "serve env rs = (resps, env')" by (cases "serve env rs")
    show ?case
      using a step s ih by (simp add: createIpSuccessResponse_def)
  qed
  from one many show ?thesis by (simp add: createIpSuccessResponse_def)
qed

text \<open>
  Sixty-one keyless requests in one instant, against a binding in which another key has
  used up its window: all are answered 200 and nothing is recorded.
\<close>

theorem keyless_request_skips_limiter_witness:
  "method (rootRequest None) = ''GET'' \<and> pathname (rootRequest None) = ''/''
   \<and> getClientIp (rootRequest None) = None
   \<and> status (fst (fetch 0 (rootRequest None)
        (envWith [''1.2.3.4'' \<mapsto> \<lparr>count = 60, windowStart = 0\<rparr>]))) = 200
   \<and> snd (serve (envWith [''1.2.3.4'' \<mapsto> \<lparr>count = 60, windowStart = 0\<rparr>])
        (replicate 61 (0, rootRequest None))) =
       envWith [''1.2.3.4'' \<mapsto> \<lparr>count = 60, windowStart = 0\<rparr>]
   \<and> map status (fst (serve (envWith [''1.2.3.4'' \<mapsto> \<lparr>count = 60, windowStart = 0\<rparr>])
        (replicate 61 (0, rootRequest None)))) = replicate 61 200"
proof -
  have a: "method (rootRequest None) = ''GET''" "pathname (rootRequest None) = ''/''"
    "getClientIp (rootRequest None) = None"
    by (simp_all add: rootRequest_def)
  have b: "\<forall>(t, r)\<in>set (replicate 61 (0::nat, rootRequest None)).
             method r = ''GET'' \<and> pathname r = ''/'' \<and> getClientIp r = None"
    by (simp add: rootRequest_def)
  show ?thesis
    using a keyless_request_skips_limiter[OF a b, of 0
        "envWith [''1.2.3.4'' \<mapsto> \<lparr>count = 60, windowStart = 0\<rparr>]"]
    by (simp add: createIpSuccessResponse_def)
qed

text \<open>
  C10. The rate limiter is consulted only for \<open>GET\<close> requests to the root path \<open>/\<close>:
  \<open>OPTIONS\<close> preflight requests, non-\<open>GET\<close> requests (405), requests to \<open>/debug\<close>, and
  requests to any other path (404) are answered without ever invoking the limiter, so they
  never consume any key's request budget or mutate rate-limiter state.

  A request that is not a \<open>GET\<close> for \<open>/\<close> is answered by the builder of its branch and
  leaves the environment, the binding's windows and its log of invocations, as it was; so
  does any sequence of such requests.
\<close>

theorem limiter_only_on_get_root:
  assumes "\<not> (method request = ''GET'' \<and> pathname request = ''/'')"
    and "\<forall>(t, r)\<in>set rs. \<not> (method r = ''GET'' \<and> pathname r = ''/'')"
  shows "snd (fetch now request env) = env
       \<and> fst (fetch now request env) =
           (if method request = ''OPTIONS'' then handleOptions
            else if method request \<noteq> ''GET'' then createMethodNotAllowedResponse now
            else if pathname request = ''/debug'' then
              createDebugResponse (getAllHeaders request) (cf request) now
            else createNotFoundResponse now)
       \<and> status (createMethodNotAllowedResponse now) = 405
       \<and> status (createNotFoundResponse now) = 404
       \<and> snd (serve env rs) = env"
proof -
  have many: "snd (serve env rs) = env"
    using assms(2)
  proof (induction rs)
    case Nil
    show ?case by simp
  next
    case (Cons a rs)
    obtain t r where a: "a = (t, r)" by (cases a)
    have "\<not> (method r = ''GET'' \<and> pathname r = ''/'')" using Cons.prems a by simp
    then have step: "snd (fetch t r env) = env" by (simp add: fetch_off_root)
    have "\<forall>(t, r)\<in>set rs. \<not> (method r = ''GET'' \<and> pathname r = ''/'')"
      using Cons.prems by simp
    from Cons.IH[OF this] have ih: "snd (serve env rs) = env" .
    obtain resps env' where s: "serve env rs = (resps, env')" by (cases "serve env rs")
    obtain resp env1 where f: "fetch t r env = (resp, env1)" by (cases "fetch t r env")
    show ?case
      using a step s f ih by simp
  qed
  show ?thesis
    using fetch_off_root[OF assms(1), of now env] many
    by (simp add: createMethodNotAllowedResponse_def createNotFoundResponse_def)
qed

text \<open>
  A \<open>POST\<close> to the root path, then a preflight, a \<open>/debug\<close> request and a \<open>GET\<close> for
  an unknown path: the \<open>POST\<close> is answered 405 and none of them touches the binding.
\<close>

theorem limiter_only_on_get_root_witness:
  "\<not> (method ((rootRequest (Some ''1.2.3.4''))\<lparr>method := ''POST''\<rparr>) = ''GET''
       \<and> pathname ((rootRequest (Some ''1.2.3.4''))\<lparr>method := ''POST''\<rparr>) = ''/'')
   \<and> fetch 0 ((rootRequest (Some ''1.2.3.4''))\<lparr>method := ''POST''\<rparr>) (envWith Map.empty) =
       (createMethodNotAllowedResponse 0, envWith Map.empty)
   \<and> snd (serve (envWith Map.empty)
        [(0, (rootRequest (Some ''1.2.3.4''))\<lparr>method := ''OPTIONS''\<rparr>),
         (1, (rootRequest (Some ''1.2.3.4''))\<lparr>pathname := ''/debug''\<rparr>),
         (2, (rootRequest (Some ''1.2.3.4''))\<lparr>pathname := ''/simple''\<rparr>)]) = envWith Map.empty"
proof -
  have a: "\<not> (method ((rootRequest (Some ''1.2.3.4''))\<lparr>method := ''POST''\<rparr>) = ''GET''
       \<and> pathname ((rootRequest (Some ''1.2.3.4''))\<lparr>method := ''POST''\<rparr>) = ''/'')"
    by (simp add: rootRequest_def)
  have b: "\<forall>(t, r)\<in>set
        [(0::nat, (rootRequest (Some ''1.2.3.4''))\<lparr>method := ''OPTIONS''\<rparr>),
         (1, (rootRequest (Some ''1.2.3.4''))\<lparr>pathname := ''/debug''\<rparr>),
         (2, (rootRequest (Some ''1.2.3.4''))\<lparr>pathname := ''/simple''\<rparr>)].
          \<not> (method r = ''GET'' \<and> pathname r = ''/'')"
    by (simp add: rootRequest_def)
  have c: "method ((rootRequest (Some ''1.2.3.4''))\<lparr>method := ''POST''\<rparr>) = ''POST''"
    by simp
  show ?thesis
    using a limiter_only_on_get_root[OF a b, of 0 "envWith Map.empty"]
    unfolding c by (simp add: prod_eq_iff)
qed

end
